theory Spec2Isabelle
  imports Main "HOL-Library.Sublist"
begin

section \<open>The store endpoint (route handler for the tasks resource)\<close>

subsection \<open>JavaScript values of type \<open>unknown\<close>\<close>

text \<open>
  The handler receives what \<open>JSON.parse\<close> and \<open>request.json()\<close> produce: null, booleans,
  numbers, strings, arrays and plain objects. An object is the list of its own properties;
  reading a property takes the binding of that name, and a name with no binding reads as
  \<open>undefined\<close>, which is \<open>None\<close> here.

  A number is a decimal \<open>m / 10 ^ k\<close> (\<open>Finite m k\<close>, an integer when \<open>k = 0\<close>), negative
  zero, an infinity or NaN. A number literal that overflows, such as \<open>1e400\<close>, is read as
  an infinity. The binary rounding of a double is not modelled: a finite number is the
  decimal its literal denotes.
\<close>

datatype jsnum = Finite int nat | NegZero | PosInfinity | NegInfinity | NaN

datatype jsval =
    JNull
  | JBool bool
  | JNum jsnum
  | JStr string
  | JArr "jsval list"
  | JObj "(string \<times> jsval) list"

text \<open>\<open>!value\<close> is true exactly on the falsy values: null, false, the zeros, NaN and the
  empty string.\<close>

fun is_zero :: "jsnum \<Rightarrow> bool" where
  "is_zero (Finite m k) = (m = 0)"
| "is_zero NegZero = True"
| "is_zero x = False"

fun truthy :: "jsval \<Rightarrow> bool" where
  "truthy JNull = False"
| "truthy (JBool b) = b"
| "truthy (JNum n) = (\<not> is_zero n \<and> n \<noteq> NaN)"
| "truthy (JStr s) = (s \<noteq> [])"
| "truthy (JArr xs) = True"
| "truthy (JObj kvs) = True"

text \<open>\<open>typeof\<close>: null and arrays are objects too. \<open>typeof_prop\<close> is \<open>typeof\<close> of a property
  read, where the property may be absent.\<close>

fun typeof :: "jsval \<Rightarrow> string" where
  "typeof JNull = ''object''"
| "typeof (JBool b) = ''boolean''"
| "typeof (JNum n) = ''number''"
| "typeof (JStr s) = ''string''"
| "typeof (JArr xs) = ''object''"
| "typeof (JObj kvs) = ''object''"

fun typeof_prop :: "jsval option \<Rightarrow> string" where
  "typeof_prop None = ''undefined''"
| "typeof_prop (Some v) = typeof v"

text \<open>
  Property access \<open>value.name\<close> for the names the handler reads (\<open>id\<close>, \<open>title\<close>,
  \<open>detail\<close>, \<open>status\<close>, \<open>tasks\<close>). None of them is a property of an array (which has
  indices and \<open>length\<close>) or of the prototypes, so only a plain object can hold one.
\<close>

fun read_prop :: "jsval \<Rightarrow> string \<Rightarrow> jsval option" where
  "read_prop (JObj kvs) name = map_of kvs name"
| "read_prop v name = None"

fun isArray :: "jsval option \<Rightarrow> bool" where
  "isArray (Some (JArr xs)) = True"
| "isArray v = False"

fun elements :: "jsval option \<Rightarrow> jsval list" where
  "elements (Some (JArr xs)) = xs"
| "elements v = []"

text \<open>\<open>Array.prototype.some\<close>.\<close>

definition some :: "('a \<Rightarrow> bool) \<Rightarrow> 'a list \<Rightarrow> bool" where
  "some p xs = list_ex p xs"

subsection \<open>Shape checks\<close>

definition isTaskStatus :: "jsval option \<Rightarrow> bool" where
  "isTaskStatus v =
     (v = Some (JStr ''todo'') \<or> v = Some (JStr ''doing'') \<or> v = Some (JStr ''done''))"

definition isTask :: "jsval \<Rightarrow> bool" where
  "isTask v =
     (if \<not> truthy v \<or> typeof v \<noteq> ''object'' then False
      else typeof_prop (read_prop v ''id'') = ''string'' \<and>
           typeof_prop (read_prop v ''title'') = ''string'' \<and>
           typeof_prop (read_prop v ''detail'') = ''string'' \<and>
           isTaskStatus (read_prop v ''status''))"

subsection \<open>The platform: JSON codec and the backing file\<close>

text \<open>
  \<open>JSON.parse\<close> and \<open>JSON.stringify\<close> belong to the runtime, not to the repository: they
  are parameters of the model. \<open>JSON_parse\<close> returns \<open>None\<close> where \<open>JSON.parse\<close> throws;
  the second argument of \<open>JSON_stringify\<close> is the indentation.
\<close>

record platform =
  JSON_parse :: "string \<Rightarrow> jsval option"
  JSON_stringify :: "jsval \<Rightarrow> nat \<Rightarrow> string"

text \<open>The file at \<open>TASKS_FILE\<close>: absent, present but not readable, or holding a text.\<close>

datatype tasks_file = Missing | Unreadable | Content string

fun fs_readFile :: "tasks_file \<Rightarrow> string option" where
  "fs_readFile (Content text) = Some text"
| "fs_readFile f = None"

text \<open>
  What the disk does with one \<open>mkdir\<close> followed by one \<open>writeFile\<close> is chosen by the
  environment: both succeed, \<open>mkdir\<close> throws (the file is not touched), or \<open>writeFile\<close>
  throws and leaves the file in some state of its own.
\<close>

datatype disk = DiskOk | MkdirFails | WriteFileFails tasks_file

datatype error = ReadError | SyntaxError | InvalidTasksData | WriteError

subsection \<open>readTasksFile, writeTasksFile\<close>

definition readTasksFile :: "platform \<Rightarrow> tasks_file \<Rightarrow> error + jsval list" where
  "readTasksFile P f =
     (case fs_readFile f of
        None \<Rightarrow> Inl ReadError
      | Some content \<Rightarrow>
          (case JSON_parse P content of
             None \<Rightarrow> Inl SyntaxError
           | Some parsed \<Rightarrow>
               if \<not> isArray (Some parsed) \<or> some (\<lambda>item. \<not> isTask item) (elements (Some parsed))
               then Inl InvalidTasksData
               else Inr (elements (Some parsed))))"

definition writeTasksFile :: "platform \<Rightarrow> disk \<Rightarrow> jsval list \<Rightarrow> tasks_file \<Rightarrow> (error + unit) \<times> tasks_file" where
  "writeTasksFile P d tasks f =
     (case d of
        MkdirFails \<Rightarrow> (Inl WriteError, f)
      | WriteFileFails f' \<Rightarrow> (Inl WriteError, f')
      | DiskOk \<Rightarrow> (Inr (), Content (JSON_stringify P (JArr tasks) 2 @ [CHR 0x0A])))"

subsection \<open>Responses and requests\<close>

record response =
  http_status :: nat
  body :: jsval

text \<open>\<open>NextResponse.json(body)\<close> answers 200; \<open>NextResponse.json(body, {status})\<close> the status given.\<close>

definition NextResponse_json :: "jsval \<Rightarrow> nat option \<Rightarrow> response" where
  "NextResponse_json b init =
     \<lparr>http_status = (case init of None \<Rightarrow> 200 | Some s \<Rightarrow> s), body = b\<rparr>"

text \<open>A request is what \<open>await request.json()\<close> gives: the parsed body, or \<open>None\<close> when the
  promise rejects because the body is not JSON text.\<close>

record request =
  json :: "jsval option"

subsection \<open>GET and PUT\<close>

definition GET :: "platform \<Rightarrow> tasks_file \<Rightarrow> response" where
  "GET P f =
     (case readTasksFile P f of
        Inr tasks \<Rightarrow> NextResponse_json (JObj [(''tasks'', JArr tasks)]) None
      | Inl e \<Rightarrow> NextResponse_json (JObj [(''tasks'', JArr [])]) None)"

definition PUT :: "platform \<Rightarrow> disk \<Rightarrow> request \<Rightarrow> tasks_file \<Rightarrow> response \<times> tasks_file" where
  "PUT P d req f =
     (case json req of
        None \<Rightarrow>
          (NextResponse_json (JObj [(''message'', JStr ''Failed to save tasks'')]) (Some 500), f)
      | Some b \<Rightarrow>
          if \<not> truthy b \<or> typeof b \<noteq> ''object''
          then (NextResponse_json (JObj [(''message'', JStr ''Invalid body'')]) (Some 400), f)
          else if \<not> isArray (read_prop b ''tasks'') \<or>
                  some (\<lambda>item. \<not> isTask item) (elements (read_prop b ''tasks''))
          then (NextResponse_json (JObj [(''message'', JStr ''Invalid tasks'')]) (Some 400), f)
          else
            (case writeTasksFile P d (elements (read_prop b ''tasks'')) f of
               (Inl e, f') \<Rightarrow>
                 (NextResponse_json (JObj [(''message'', JStr ''Failed to save tasks'')]) (Some 500), f')
             | (Inr u, f') \<Rightarrow>
                 (NextResponse_json (JObj [(''tasks'', JArr (elements (read_prop b ''tasks'')))]) None, f')))"

section \<open>The board client (\<open>TodoBoard\<close>)\<close>

subsection \<open>Tasks and component state\<close>

datatype TaskStatus = Todo | Doing | Done

record Task =
  id' :: string
  title :: string
  detail :: string
  status :: TaskStatus

text \<open>The component's \<open>useState\<close> cells.\<close>

record board =
  tasks :: "Task list"
  newTitle :: string
  newDetail :: string
  loading :: bool
  saving :: bool
  mounted :: bool
  activeTask :: "Task option"
  dialogOpen :: bool

text \<open>
  \<open>Partial<Pick<Task, "title" | "detail">>\<close>: each of the two keys is present or not, and
  \<open>{ ...task, ...patch }\<close> overwrites the keys that are present.
\<close>

record patch =
  patch_title :: "string option"
  patch_detail :: "string option"

definition spread :: "Task \<Rightarrow> patch \<Rightarrow> Task" where
  "spread task p =
     task\<lparr>title := (case patch_title p of None \<Rightarrow> title task | Some t \<Rightarrow> t),
          detail := (case patch_detail p of None \<Rightarrow> detail task | Some d \<Rightarrow> d)\<rparr>"

subsection \<open>\<open>String.prototype.trim\<close>\<close>

text \<open>White space and line terminators among the code units below 256: tab, line feed,
  vertical tab, form feed, carriage return, space and no-break space.\<close>

definition isWhiteSpace :: "char \<Rightarrow> bool" where
  "isWhiteSpace c =
     (c \<in> set [CHR 0x09, CHR 0x0A, CHR 0x0B, CHR 0x0C, CHR 0x0D, CHR 0x20, CHR 0xA0])"

definition trim :: "string \<Rightarrow> string" where
  "trim s = rev (dropWhile isWhiteSpace (rev (dropWhile isWhiteSpace s)))"

subsection \<open>Event handlers\<close>

text \<open>
  A handler reads the state of the current render and returns the state after its
  synchronous part, together with the bodies of the \<open>PUT\<close> requests it has issued (the
  \<open>tasks\<close> array of each). \<open>persistTasks\<close> sets the list and the saving flag and issues one
  request; the flag is cleared later, when the request settles.
\<close>

definition persistTasks :: "Task list \<Rightarrow> board \<Rightarrow> board \<times> Task list list" where
  "persistTasks nextTasks st = (st\<lparr>tasks := nextTasks, saving := True\<rparr>, [nextTasks])"

text \<open>The first argument of \<open>addTask\<close> is the value \<open>crypto.randomUUID()\<close> returns.\<close>

definition addTask :: "string \<Rightarrow> board \<Rightarrow> board \<times> Task list list" where
  "addTask uuid st =
     (let title' = trim (newTitle st);
          detail' = trim (newDetail st)
      in if title' = [] then (st, [])
         else
           (let nextTasks = \<lparr>id' = uuid, title = title', detail = detail', status = Todo\<rparr> # tasks st;
                (st1, requests) = persistTasks nextTasks st
            in (st1\<lparr>newTitle := [], newDetail := []\<rparr>, requests)))"

definition updateTask :: "string \<Rightarrow> patch \<Rightarrow> board \<Rightarrow> board \<times> Task list list" where
  "updateTask i p st =
     (let nextTasks = map (\<lambda>task. if id' task = i then spread task p else task) (tasks st);
          (st1, requests) = persistTasks nextTasks st
      in if map_option id' (activeTask st) = Some i
         then (st1\<lparr>activeTask := (case activeTask st1 of
                                    Some prev \<Rightarrow> Some (spread prev p)
                                  | None \<Rightarrow> None)\<rparr>, requests)
         else (st1, requests))"

definition moveForward :: "string \<Rightarrow> board \<Rightarrow> board \<times> Task list list" where
  "moveForward i st =
     (let nextTasks =
            map (\<lambda>task.
                   if id' task \<noteq> i then task
                   else if status task = Todo then task\<lparr>status := Doing\<rparr>
                   else if status task = Doing then task\<lparr>status := Done\<rparr>
                   else task) (tasks st)
      in persistTasks nextTasks st)"

definition moveBack :: "string \<Rightarrow> board \<Rightarrow> board \<times> Task list list" where
  "moveBack i st =
     (let nextTasks =
            map (\<lambda>task.
                   if id' task \<noteq> i then task
                   else if status task = Done then task\<lparr>status := Doing\<rparr>
                   else if status task = Doing then task\<lparr>status := Todo\<rparr>
                   else task) (tasks st)
      in persistTasks nextTasks st)"

definition removeTask :: "string \<Rightarrow> board \<Rightarrow> board \<times> Task list list" where
  "removeTask i st =
     (let nextTasks = filter (\<lambda>task. id' task \<noteq> i) (tasks st);
          (st1, requests) = persistTasks nextTasks st
      in if map_option id' (activeTask st) = Some i
         then (st1\<lparr>dialogOpen := False, activeTask := None\<rparr>, requests)
         else (st1, requests))"

text \<open>The mutating operations the board offers, each with its arguments.\<close>

datatype action =
    AddTask string
  | UpdateTask string patch
  | MoveForward string
  | MoveBack string
  | RemoveTask string

fun perform :: "action \<Rightarrow> board \<Rightarrow> board \<times> Task list list" where
  "perform (AddTask uuid) st = addTask uuid st"
| "perform (UpdateTask i p) st = updateTask i p st"
| "perform (MoveForward i) st = moveForward i st"
| "perform (MoveBack i) st = moveBack i st"
| "perform (RemoveTask i) st = removeTask i st"

section \<open>Concrete inputs\<close>

text \<open>
  The task of the specification's example, the text \<open>JSON.stringify(tasks, null, 2)\<close> gives
  for the list holding it, and a platform that knows this document and the empty object:
  enough to run the handlers on concrete inputs.
\<close>

definition sample_task :: jsval where
  "sample_task =
     JObj [(''id'', JStr ''1''), (''title'', JStr ''A''), (''detail'', JStr ''''),
           (''status'', JStr ''todo'')]"

definition sample_text :: string where
  \<open>sample_text =
     ''[\<newline>  {\<newline>    "id": "1",\<newline>    "title": "A",\<newline>    "detail": "",\<newline>    "status": "todo"\<newline>  }\<newline>]''\<close>

definition sample_platform :: platform where
  "sample_platform =
     \<lparr>JSON_parse =
        (\<lambda>content. if content = sample_text @ [CHR 0x0A] then Some (JArr [sample_task])
                    else if content = ''{}'' then Some (JObj [])
                    else None),
      JSON_stringify =
        (\<lambda>v indent. if v = JArr [sample_task] \<and> indent = 2 then sample_text else [])\<rparr>"

text \<open>A task object that carries two properties beyond the four of \<open>Task\<close>.\<close>

definition extended_task :: "(string \<times> jsval) list" where
  "extended_task =
     [(''id'', JStr ''7''), (''priority'', JNum (Finite 3 0)), (''title'', JStr ''B''),
      (''detail'', JStr ''x''), (''status'', JStr ''doing''),
      (''tags'', JArr [JStr ''ui'', JNull])]"

text \<open>A board with one task in each column, the second one open in the detail dialog.\<close>

definition task_a :: Task where
  "task_a = \<lparr>id' = ''a'', title = ''Write parser'', detail = '''', status = Todo\<rparr>"

definition task_b :: Task where
  "task_b = \<lparr>id' = ''b'', title = ''Review'', detail = ''two files'', status = Doing\<rparr>"

definition task_c :: Task where
  "task_c = \<lparr>id' = ''c'', title = ''Ship'', detail = ''v1'', status = Done\<rparr>"

definition sample_board :: board where
  "sample_board =
     \<lparr>tasks = [task_a, task_b, task_c], newTitle = ''  New task '', newDetail = '' later'',
      loading = False, saving = False, mounted = True, activeTask = Some task_b,
      dialogOpen = True\<rparr>"

definition blank_title_board :: board where
  "blank_title_board = sample_board\<lparr>newTitle := '' ''\<rparr>"

section \<open>Properties of the store endpoint\<close>

subsection \<open>Shape checks\<close>

lemma some_not_isTask: "some (\<lambda>item. \<not> isTask item) ts \<longleftrightarrow> \<not> list_all isTask ts"
  by (simp add: some_def list_ex_iff list_all_iff)

lemma typeof_prop_string: "typeof_prop x = ''string'' \<longleftrightarrow> (\<exists>a. x = Some (JStr a))"
proof (cases x)
  case None
  then show ?thesis by simp
next
  case (Some v)
  then show ?thesis by (cases v) simp_all
qed

text \<open>The shape check, read off as a condition on the value.\<close>

lemma isTask_iff:
  "isTask v \<longleftrightarrow>
     (\<exists>kvs a b c s. v = JObj kvs \<and> map_of kvs ''id'' = Some (JStr a) \<and>
        map_of kvs ''title'' = Some (JStr b) \<and> map_of kvs ''detail'' = Some (JStr c) \<and>
        map_of kvs ''status'' = Some (JStr s) \<and> s \<in> {''todo'', ''doing'', ''done''})"
proof (cases v)
  case (JObj kvs)
  then show ?thesis
    by (auto simp: isTask_def typeof_prop_string isTaskStatus_def)
qed (simp_all add: isTask_def)

lemma isTask_sample: "isTask sample_task"
  by (simp add: isTask_def sample_task_def isTaskStatus_def)

subsection \<open>Reading and writing the file\<close>

lemma writeTasksFile_ok:
  "writeTasksFile P DiskOk ts f = (Inr (), Content (JSON_stringify P (JArr ts) 2 @ [CHR 0x0A]))"
  by (simp add: writeTasksFile_def)

lemma readTasksFile_cases:
  "readTasksFile P f =
     (case f of
        Content content \<Rightarrow>
          (case JSON_parse P content of
             None \<Rightarrow> Inl SyntaxError
           | Some v \<Rightarrow>
               (case v of
                  JArr ts \<Rightarrow> if list_all isTask ts then Inr ts else Inl InvalidTasksData
                | _ \<Rightarrow> Inl InvalidTasksData))
      | _ \<Rightarrow> Inl ReadError)"
  by (simp add: readTasksFile_def some_not_isTask
        split: tasks_file.splits option.splits jsval.splits)


subsection \<open>The outcomes of PUT\<close>

lemma PUT_no_json:
  assumes "json req = None"
  shows "PUT P d req f =
           (\<lparr>http_status = 500, body = JObj [(''message'', JStr ''Failed to save tasks'')]\<rparr>, f)"
  using assms by (simp add: PUT_def NextResponse_json_def)

lemma PUT_invalid_body:
  assumes "json req = Some b" and "\<not> truthy b \<or> typeof b \<noteq> ''object''"
  shows "PUT P d req f =
           (\<lparr>http_status = 400, body = JObj [(''message'', JStr ''Invalid body'')]\<rparr>, f)"
  using assms by (auto simp add: PUT_def NextResponse_json_def)

lemma PUT_invalid_tasks:
  assumes "json req = Some b" and "truthy b" and "typeof b = ''object''"
    and "\<not> isArray (read_prop b ''tasks'') \<or>
         \<not> list_all isTask (elements (read_prop b ''tasks''))"
  shows "PUT P d req f =
           (\<lparr>http_status = 400, body = JObj [(''message'', JStr ''Invalid tasks'')]\<rparr>, f)"
  using assms by (auto simp add: PUT_def NextResponse_json_def some_not_isTask)

lemma PUT_valid:
  assumes "json req = Some (JObj kvs)" and "map_of kvs ''tasks'' = Some (JArr ts)"
    and "list_all isTask ts"
  shows "PUT P DiskOk req f =
           (\<lparr>http_status = 200, body = JObj [(''tasks'', JArr ts)]\<rparr>,
            Content (JSON_stringify P (JArr ts) 2 @ [CHR 0x0A]))"
  using assms by (simp add: PUT_def some_not_isTask writeTasksFile_ok NextResponse_json_def)

lemma PUT_write_fails:
  assumes "json req = Some (JObj kvs)" and "map_of kvs ''tasks'' = Some (JArr ts)"
    and "list_all isTask ts" and "d \<noteq> DiskOk"
  shows "PUT P d req f =
           (\<lparr>http_status = 500, body = JObj [(''message'', JStr ''Failed to save tasks'')]\<rparr>,
            case d of WriteFileFails f' \<Rightarrow> f' | _ \<Rightarrow> f)"
  using assms
  by (cases d) (simp_all add: PUT_def some_not_isTask writeTasksFile_def NextResponse_json_def)

subsection \<open>The outcomes of GET\<close>

lemma GET_status: "http_status (GET P f) = 200"
  by (simp add: GET_def NextResponse_json_def split: sum.splits)

lemma GET_body:
  "body (GET P f) =
     JObj [(''tasks'', JArr (case readTasksFile P f of Inr ts \<Rightarrow> ts | Inl e \<Rightarrow> []))]"
  by (simp add: GET_def NextResponse_json_def split: sum.splits)

subsection \<open>Claims about the store endpoint\<close>



text \<open>
  C2. PUT answers 200 with the accepted list, 400 for every malformed request body or
  task failing the shape check, and 500 when the disk write fails. The handler calls
  \<open>request.json()\<close> inside the \<open>try\<close> whose \<open>catch\<close> answers 500: a body that is not
  JSON text is answered 500 with the message of a failed save, for every platform, disk
  and file, and the file is left as it was.
\<close>

theorem PUT_unparsable_body_is_500:
  "PUT P d \<lparr>json = None\<rparr> f =
     (\<lparr>http_status = 500, body = JObj [(''message'', JStr ''Failed to save tasks'')]\<rparr>, f)"
  by (simp add: PUT_no_json)

theorem PUT_unparsable_body_is_500_witness:
  "PUT sample_platform DiskOk \<lparr>json = None\<rparr> (Content (sample_text @ [CHR 0x0A])) =
     (\<lparr>http_status = 500, body = JObj [(''message'', JStr ''Failed to save tasks'')]\<rparr>,
      Content (sample_text @ [CHR 0x0A]))"
  using PUT_unparsable_body_is_500 [of sample_platform DiskOk "Content (sample_text @ [CHR 0x0A])"]
  by simp

text \<open>
  C3. GET never answers an error status. When the file is missing or unreadable, when its
  text is not JSON, when the parsed value is not an array, or when an element of the array
  fails the shape check, the answer is 200 with an empty list; when the file holds an
  array of shape-valid tasks, the answer is 200 with that array.
\<close>

theorem GET_never_fails:
  "http_status (GET P f) = 200 \<and>
   (f = Missing \<or> f = Unreadable \<or>
    (\<exists>content. f = Content content \<and>
       (JSON_parse P content = None \<or>
        (\<exists>v. JSON_parse P content = Some v \<and>
           (\<not> isArray (Some v) \<or> (\<exists>item \<in> set (elements (Some v)). \<not> isTask item)))))
      \<longrightarrow> body (GET P f) = JObj [(''tasks'', JArr [])]) \<and>
   (\<forall>content ts. f = Content content \<and> JSON_parse P content = Some (JArr ts) \<and>
        list_all isTask ts
      \<longrightarrow> body (GET P f) = JObj [(''tasks'', JArr ts)])"
proof (intro conjI impI allI)
  show "http_status (GET P f) = 200"
    by (rule GET_status)
next
  assume bad: "f = Missing \<or> f = Unreadable \<or>
    (\<exists>content. f = Content content \<and>
       (JSON_parse P content = None \<or>
        (\<exists>v. JSON_parse P content = Some v \<and>
           (\<not> isArray (Some v) \<or> (\<exists>item \<in> set (elements (Some v)). \<not> isTask item)))))"
  have "\<exists>e. readTasksFile P f = Inl e"
    using bad by (auto simp: readTasksFile_cases list_all_iff split: jsval.splits)
  then show "body (GET P f) = JObj [(''tasks'', JArr [])]"
    by (auto simp: GET_body)
next
  fix content ts
  assume "f = Content content \<and> JSON_parse P content = Some (JArr ts) \<and> list_all isTask ts"
  then show "body (GET P f) = JObj [(''tasks'', JArr ts)]"
    by (simp add: GET_body readTasksFile_cases)
qed

theorem GET_never_fails_witness:
  "JSON_parse sample_platform (sample_text @ [CHR 0x0A]) = Some (JArr [sample_task]) \<and>
   list_all isTask [sample_task] \<and>
   http_status (GET sample_platform (Content (sample_text @ [CHR 0x0A]))) = 200 \<and>
   body (GET sample_platform (Content (sample_text @ [CHR 0x0A])))
     = JObj [(''tasks'', JArr [sample_task])] \<and>
   body (GET sample_platform Missing) = JObj [(''tasks'', JArr [])] \<and>
   JSON_parse sample_platform ''{}'' = Some (JObj []) \<and> \<not> isArray (Some (JObj [])) \<and>
   body (GET sample_platform (Content ''{}'')) = JObj [(''tasks'', JArr [])]"
proof -
  have p: "JSON_parse sample_platform (sample_text @ [CHR 0x0A]) = Some (JArr [sample_task])"
    by (simp add: sample_platform_def)
  have q: "JSON_parse sample_platform ''{}'' = Some (JObj [])"
    by (simp add: sample_platform_def sample_text_def)
  have v: "list_all isTask [sample_task]"
    by (simp add: isTask_sample)
  show ?thesis
    using GET_never_fails [of sample_platform "Content (sample_text @ [CHR 0x0A])"]
      GET_never_fails [of sample_platform Missing]
      GET_never_fails [of sample_platform "Content ''{}''"] p q v
    by simp
qed

text \<open>
  C10. The shape check accepts every object whose id, title and detail are strings and
  whose status is one of the three values, whatever other properties the object has; so
  PUT, when the write succeeds, accepts a list of such objects, hands the list as it is to
  the serialisation that is written to the file, and answers 200 with the list as it is.
\<close>

theorem isTask_ignores_extra_properties:
  assumes shape: "\<forall>kvs \<in> set objs.
        (\<exists>a. map_of kvs ''id'' = Some (JStr a)) \<and>
        (\<exists>b. map_of kvs ''title'' = Some (JStr b)) \<and>
        (\<exists>c. map_of kvs ''detail'' = Some (JStr c)) \<and>
        map_of kvs ''status'' \<in> {Some (JStr ''todo''), Some (JStr ''doing''), Some (JStr ''done'')}"
    and request: "json req = Some (JObj outer)" "map_of outer ''tasks'' = Some (JArr (map JObj objs))"
  shows "list_all isTask (map JObj objs) \<and>
         PUT P DiskOk req f =
           (\<lparr>http_status = 200, body = JObj [(''tasks'', JArr (map JObj objs))]\<rparr>,
            Content (JSON_stringify P (JArr (map JObj objs)) 2 @ [CHR 0x0A]))"
proof -
  have "isTask (JObj kvs)" if "kvs \<in> set objs" for kvs
    using shape that by (fastforce simp: isTask_iff)
  then have valid: "list_all isTask (map JObj objs)"
    by (simp add: list_all_iff)
  with request show ?thesis
    by (simp add: PUT_valid)
qed

theorem isTask_ignores_extra_properties_witness:
  "map_of extended_task ''priority'' = Some (JNum (Finite 3 0)) \<and>
   isTask (JObj extended_task) \<and>
   PUT sample_platform DiskOk \<lparr>json = Some (JObj [(''tasks'', JArr [JObj extended_task])])\<rparr> Missing =
     (\<lparr>http_status = 200, body = JObj [(''tasks'', JArr [JObj extended_task])]\<rparr>,
      Content (JSON_stringify sample_platform (JArr [JObj extended_task]) 2 @ [CHR 0x0A]))"
  using isTask_ignores_extra_properties [of "[extended_task]"
      "\<lparr>json = Some (JObj [(''tasks'', JArr [JObj extended_task])])\<rparr>"
      "[(''tasks'', JArr [JObj extended_task])]" sample_platform Missing]
  by (simp add: extended_task_def)

section \<open>Properties of the board client\<close>

subsection \<open>The list each handler computes\<close>

lemma tasks_addTask:
  "tasks (fst (addTask uuid st)) =
     (if trim (newTitle st) = [] then tasks st
      else \<lparr>id' = uuid, title = trim (newTitle st), detail = trim (newDetail st),
            status = Todo\<rparr> # tasks st)"
  by (simp add: addTask_def persistTasks_def Let_def)

lemma tasks_updateTask:
  "tasks (fst (updateTask i p st)) =
     map (\<lambda>task. if id' task = i then spread task p else task) (tasks st)"
  by (simp add: updateTask_def persistTasks_def Let_def)

lemma tasks_moveForward:
  "tasks (fst (moveForward i st)) =
     map (\<lambda>task. if id' task \<noteq> i then task
                  else if status task = Todo then task\<lparr>status := Doing\<rparr>
                  else if status task = Doing then task\<lparr>status := Done\<rparr>
                  else task) (tasks st)"
  by (simp add: moveForward_def persistTasks_def Let_def)

lemma tasks_moveBack:
  "tasks (fst (moveBack i st)) =
     map (\<lambda>task. if id' task \<noteq> i then task
                  else if status task = Done then task\<lparr>status := Doing\<rparr>
                  else if status task = Doing then task\<lparr>status := Todo\<rparr>
                  else task) (tasks st)"
  by (simp add: moveBack_def persistTasks_def Let_def)

lemma tasks_removeTask:
  "tasks (fst (removeTask i st)) = filter (\<lambda>task. id' task \<noteq> i) (tasks st)"
  by (simp add: removeTask_def persistTasks_def Let_def)

subsection \<open>Status transitions\<close>

lemma moveForward_pointwise:
  assumes "k < length (tasks st)"
  shows "let t = tasks st ! k; t' = tasks (fst (moveForward i st)) ! k in
           (id' t \<noteq> i \<longrightarrow> t' = t) \<and>
           (id' t = i \<and> status t = Todo \<longrightarrow> t' = t\<lparr>status := Doing\<rparr>) \<and>
           (id' t = i \<and> status t = Doing \<longrightarrow> t' = t\<lparr>status := Done\<rparr>) \<and>
           (id' t = i \<and> status t = Done \<longrightarrow> t' = t)"
  using assms by (simp add: tasks_moveForward Let_def)

lemma moveBack_pointwise:
  assumes "k < length (tasks st)"
  shows "let t = tasks st ! k; t' = tasks (fst (moveBack i st)) ! k in
           (id' t \<noteq> i \<longrightarrow> t' = t) \<and>
           (id' t = i \<and> status t = Done \<longrightarrow> t' = t\<lparr>status := Doing\<rparr>) \<and>
           (id' t = i \<and> status t = Doing \<longrightarrow> t' = t\<lparr>status := Todo\<rparr>) \<and>
           (id' t = i \<and> status t = Todo \<longrightarrow> t' = t)"
  using assms by (simp add: tasks_moveBack Let_def)

text \<open>
  What one operation does to the list as a whole. Adding leaves the list as it is or puts
  one task in \<open>todo\<close> in front of it; removing leaves a subsequence; the three others keep
  every position, and the task at a position keeps its identifier and goes neither from
  \<open>todo\<close> to \<open>done\<close> nor from \<open>done\<close> to \<open>todo\<close>.
\<close>

lemma perform_no_skip:
  "case a of
     AddTask uuid \<Rightarrow>
       tasks (fst (perform a st)) = tasks st \<or>
       (\<exists>t. status t = Todo \<and> tasks (fst (perform a st)) = t # tasks st)
   | RemoveTask j \<Rightarrow> subseq (tasks (fst (perform a st))) (tasks st)
   | _ \<Rightarrow>
       list_all2 (\<lambda>t t'. id' t' = id' t \<and> \<not> (status t = Todo \<and> status t' = Done) \<and>
                          \<not> (status t = Done \<and> status t' = Todo))
         (tasks st) (tasks (fst (perform a st)))"
proof (cases a)
  case (AddTask uuid)
  then show ?thesis by (simp add: tasks_addTask)
next
  case (UpdateTask i p)
  then show ?thesis
    by (simp add: tasks_updateTask list_all2_map2 list_all2_same spread_def)
next
  case (MoveForward i)
  then show ?thesis
    by (simp add: tasks_moveForward list_all2_map2 list_all2_same)
next
  case (MoveBack i)
  then show ?thesis
    by (simp add: tasks_moveBack list_all2_map2 list_all2_same)
next
  case (RemoveTask i)
  then show ?thesis by (simp add: tasks_removeTask)
qed

subsection \<open>Trimming\<close>

lemma trim_Nil_iff: "trim s = [] \<longleftrightarrow> (\<forall>c \<in> set s. isWhiteSpace c)"
proof
  assume "trim s = []"
  then have "\<forall>c \<in> set (dropWhile isWhiteSpace s). isWhiteSpace c"
    by (simp add: trim_def dropWhile_eq_Nil_conv)
  then have "dropWhile isWhiteSpace s = []"
    using hd_dropWhile [of isWhiteSpace s] hd_in_set [of "dropWhile isWhiteSpace s"] by blast
  then show "\<forall>c \<in> set s. isWhiteSpace c"
    by (simp add: dropWhile_eq_Nil_conv)
next
  assume "\<forall>c \<in> set s. isWhiteSpace c"
  then show "trim s = []"
    by (auto simp: trim_def dest: set_dropWhileD)
qed

text \<open>\<open>trim s\<close> is \<open>s\<close> without a run of white space at each end, and it neither starts
  nor ends with white space.\<close>

lemma trim_decompose:
  "\<exists>pre post. s = pre @ trim s @ post \<and>
     (\<forall>c \<in> set pre. isWhiteSpace c) \<and> (\<forall>c \<in> set post. isWhiteSpace c) \<and>
     (trim s \<noteq> [] \<longrightarrow> \<not> isWhiteSpace (hd (trim s)) \<and> \<not> isWhiteSpace (last (trim s)))"
proof -
  define d where "d = dropWhile isWhiteSpace s"
  define pre where "pre = takeWhile isWhiteSpace s"
  define post where "post = rev (takeWhile isWhiteSpace (rev d))"
  have t: "trim s = rev (dropWhile isWhiteSpace (rev d))"
    by (simp add: trim_def d_def)
  have "d = rev (rev d)"
    by simp
  also have "\<dots> = rev (takeWhile isWhiteSpace (rev d) @ dropWhile isWhiteSpace (rev d))"
    by (simp only: takeWhile_dropWhile_id)
  also have "\<dots> = trim s @ post"
    by (simp only: rev_append t post_def)
  finally have d: "d = trim s @ post" .
  have "s = pre @ d"
    by (simp add: pre_def d_def)
  then have s: "s = pre @ trim s @ post"
    using d by simp
  have pre: "\<forall>c \<in> set pre. isWhiteSpace c"
    using set_takeWhileD by (fastforce simp: pre_def)
  have post: "\<forall>c \<in> set post. isWhiteSpace c"
    using set_takeWhileD by (fastforce simp: post_def)
  have ends: "\<not> isWhiteSpace (hd (trim s)) \<and> \<not> isWhiteSpace (last (trim s))"
    if ne: "trim s \<noteq> []"
  proof
    have "d \<noteq> []" using d ne by auto
    then have "\<not> isWhiteSpace (hd d)"
      unfolding d_def by (rule hd_dropWhile)
    moreover have "hd d = hd (trim s)"
      using d ne by (metis hd_append2)
    ultimately show "\<not> isWhiteSpace (hd (trim s))" by simp
    have rest: "dropWhile isWhiteSpace (rev d) \<noteq> []"
      using ne t by simp
    then have "\<not> isWhiteSpace (hd (dropWhile isWhiteSpace (rev d)))"
      by (rule hd_dropWhile)
    then show "\<not> isWhiteSpace (last (trim s))"
      using rest by (simp add: t last_rev)
  qed
  show ?thesis using s pre post ends by blast
qed

lemma count_list_filter:
  "count_list (filter P xs) x = (if P x then count_list xs x else 0)"
  by (induction xs) auto

subsection \<open>Claims about the board client\<close>

text \<open>
  C4. The status machine is linear and moves one step at a time. moveForward changes only
  the tasks with the given id: a task in todo goes to doing, one in doing goes to done, one
  in done stays as it is. moveBack is the mirror image: done to doing, doing to todo, todo
  unchanged. No single operation of the board takes a task from todo to done or from done
  to todo.
\<close>

theorem status_machine_one_step:
  "length (tasks (fst (moveForward i st))) = length (tasks st) \<and>
   length (tasks (fst (moveBack i st))) = length (tasks st) \<and>
   (\<forall>k < length (tasks st).
      let t = tasks st ! k; t' = tasks (fst (moveForward i st)) ! k in
        (id' t \<noteq> i \<longrightarrow> t' = t) \<and>
        (id' t = i \<and> status t = Todo \<longrightarrow> t' = t\<lparr>status := Doing\<rparr>) \<and>
        (id' t = i \<and> status t = Doing \<longrightarrow> t' = t\<lparr>status := Done\<rparr>) \<and>
        (id' t = i \<and> status t = Done \<longrightarrow> t' = t)) \<and>
   (\<forall>k < length (tasks st).
      let t = tasks st ! k; t' = tasks (fst (moveBack i st)) ! k in
        (id' t \<noteq> i \<longrightarrow> t' = t) \<and>
        (id' t = i \<and> status t = Done \<longrightarrow> t' = t\<lparr>status := Doing\<rparr>) \<and>
        (id' t = i \<and> status t = Doing \<longrightarrow> t' = t\<lparr>status := Todo\<rparr>) \<and>
        (id' t = i \<and> status t = Todo \<longrightarrow> t' = t)) \<and>
   (case a of
      AddTask uuid \<Rightarrow>
        tasks (fst (perform a st)) = tasks st \<or>
        (\<exists>t. status t = Todo \<and> tasks (fst (perform a st)) = t # tasks st)
    | RemoveTask j \<Rightarrow> subseq (tasks (fst (perform a st))) (tasks st)
    | _ \<Rightarrow>
        list_all2 (\<lambda>t t'. id' t' = id' t \<and> \<not> (status t = Todo \<and> status t' = Done) \<and>
                           \<not> (status t = Done \<and> status t' = Todo))
          (tasks st) (tasks (fst (perform a st))))"
proof (intro conjI allI impI)
  show "length (tasks (fst (moveForward i st))) = length (tasks st)"
    by (simp add: tasks_moveForward)
  show "length (tasks (fst (moveBack i st))) = length (tasks st)"
    by (simp add: tasks_moveBack)
next
  fix k assume "k < length (tasks st)"
  then show "let t = tasks st ! k; t' = tasks (fst (moveForward i st)) ! k in
        (id' t \<noteq> i \<longrightarrow> t' = t) \<and>
        (id' t = i \<and> status t = Todo \<longrightarrow> t' = t\<lparr>status := Doing\<rparr>) \<and>
        (id' t = i \<and> status t = Doing \<longrightarrow> t' = t\<lparr>status := Done\<rparr>) \<and>
        (id' t = i \<and> status t = Done \<longrightarrow> t' = t)"
    by (rule moveForward_pointwise)
next
  fix k assume "k < length (tasks st)"
  then show "let t = tasks st ! k; t' = tasks (fst (moveBack i st)) ! k in
        (id' t \<noteq> i \<longrightarrow> t' = t) \<and>
        (id' t = i \<and> status t = Done \<longrightarrow> t' = t\<lparr>status := Doing\<rparr>) \<and>
        (id' t = i \<and> status t = Doing \<longrightarrow> t' = t\<lparr>status := Todo\<rparr>) \<and>
        (id' t = i \<and> status t = Todo \<longrightarrow> t' = t)"
    by (rule moveBack_pointwise)
next
  show "case a of
      AddTask uuid \<Rightarrow>
        tasks (fst (perform a st)) = tasks st \<or>
        (\<exists>t. status t = Todo \<and> tasks (fst (perform a st)) = t # tasks st)
    | RemoveTask j \<Rightarrow> subseq (tasks (fst (perform a st))) (tasks st)
    | _ \<Rightarrow>
        list_all2 (\<lambda>t t'. id' t' = id' t \<and> \<not> (status t = Todo \<and> status t' = Done) \<and>
                           \<not> (status t = Done \<and> status t' = Todo))
          (tasks st) (tasks (fst (perform a st)))"
    by (rule perform_no_skip)
qed

theorem status_machine_one_step_witness:
  "(0::nat) < length (tasks sample_board) \<and> id' (tasks sample_board ! 0) = ''a'' \<and>
   status (tasks sample_board ! 0) = Todo \<and>
   tasks (fst (moveForward ''a'' sample_board)) ! 0 = task_a\<lparr>status := Doing\<rparr> \<and>
   tasks (fst (moveBack ''a'' sample_board)) ! 0 = task_a \<and>
   list_all2 (\<lambda>t t'. id' t' = id' t \<and> \<not> (status t = Todo \<and> status t' = Done) \<and>
                      \<not> (status t = Done \<and> status t' = Todo))
     (tasks sample_board) (tasks (fst (perform (MoveForward ''a'') sample_board)))"
  using status_machine_one_step [of "''a''" sample_board "MoveForward ''a''"]
  by (simp add: sample_board_def task_a_def Let_def)

text \<open>
  C5, as amended. When the trimmed title field is not empty, addTask puts exactly one new
  task in front of the list, with the identifier \<open>crypto.randomUUID()\<close> returned and
  status todo; the tasks that were there follow it, unchanged and in their order.
\<close>

theorem addTask_prepends:
  assumes "trim (newTitle st) \<noteq> []"
  shows "\<exists>t. tasks (fst (addTask uuid st)) = t # tasks st \<and> id' t = uuid \<and> status t = Todo"
  using assms by (simp add: tasks_addTask)

theorem addTask_prepends_witness:
  "trim (newTitle sample_board) \<noteq> [] \<and>
   (\<exists>t. tasks (fst (addTask ''u-1'' sample_board)) = t # [task_a, task_b, task_c] \<and>
        id' t = ''u-1'' \<and> status t = Todo)"
proof -
  have h: "trim (newTitle sample_board) \<noteq> []"
    by (simp add: sample_board_def trim_def isWhiteSpace_def)
  show ?thesis
    using addTask_prepends [OF h, of "''u-1''"] h by (simp add: sample_board_def)
qed

text \<open>
  C5 as stated fails where the title field holds only white space: the list of three tasks
  is still the list of three tasks after addTask.
\<close>

theorem addTask_blank_title_counterexample:
  "tasks blank_title_board = [task_a, task_b, task_c] \<and>
   tasks (fst (addTask ''u-1'' blank_title_board)) = [task_a, task_b, task_c]"
  by (simp add: addTask_def blank_title_board_def sample_board_def trim_def isWhiteSpace_def)

text \<open>
  C6. updateTask with a title/detail patch keeps the length of the list, and the
  identifier and the status of every task; a task with another id is unchanged; a task
  with the given id gets the title and the detail of the patch where the patch has them,
  whatever its status is.
\<close>

theorem updateTask_frame:
  "length (tasks (fst (updateTask i p st))) = length (tasks st) \<and>
   (\<forall>k < length (tasks st).
      let t = tasks st ! k; t' = tasks (fst (updateTask i p st)) ! k in
        id' t' = id' t \<and> status t' = status t \<and>
        (id' t \<noteq> i \<longrightarrow> t' = t) \<and>
        (id' t = i \<longrightarrow>
           title t' = (case patch_title p of None \<Rightarrow> title t | Some x \<Rightarrow> x) \<and>
           detail t' = (case patch_detail p of None \<Rightarrow> detail t | Some x \<Rightarrow> x)))"
  by (simp add: tasks_updateTask spread_def Let_def)

theorem updateTask_frame_witness:
  "(2::nat) < length (tasks sample_board) \<and> id' (tasks sample_board ! 2) = ''c'' \<and>
   tasks (fst (updateTask ''c'' \<lparr>patch_title = Some ''Ship it'', patch_detail = None\<rparr>
     sample_board)) ! 2
     = \<lparr>id' = ''c'', title = ''Ship it'', detail = ''v1'', status = Done\<rparr> \<and>
   tasks (fst (updateTask ''c'' \<lparr>patch_title = Some ''Ship it'', patch_detail = None\<rparr>
     sample_board)) ! 0
     = task_a"
  using
    updateTask_frame [of "''c''" "\<lparr>patch_title = Some ''Ship it'', patch_detail = None\<rparr>"
      sample_board, THEN conjunct2, rule_format, of 2]
    updateTask_frame [of "''c''" "\<lparr>patch_title = Some ''Ship it'', patch_detail = None\<rparr>"
      sample_board, THEN conjunct2, rule_format, of 0]
  by (simp add: sample_board_def task_a_def task_c_def Let_def)

text \<open>
  C7. removeTask removes every task with the given id and keeps the others in their order:
  the new list is the old one filtered, a subsequence of it that holds no task with that id
  and every other task as often as before. If the task open in the detail view has that
  id, the dialog is closed and the active task cleared; otherwise both are as they were.
\<close>

theorem removeTask_effect:
  "tasks (fst (removeTask i st)) = filter (\<lambda>t. id' t \<noteq> i) (tasks st) \<and>
   subseq (tasks (fst (removeTask i st))) (tasks st) \<and>
   (\<forall>t \<in> set (tasks (fst (removeTask i st))). id' t \<noteq> i) \<and>
   (\<forall>t. id' t \<noteq> i \<longrightarrow>
      count_list (tasks (fst (removeTask i st))) t = count_list (tasks st) t) \<and>
   (if map_option id' (activeTask st) = Some i
    then \<not> dialogOpen (fst (removeTask i st)) \<and> activeTask (fst (removeTask i st)) = None
    else dialogOpen (fst (removeTask i st)) = dialogOpen st \<and>
         activeTask (fst (removeTask i st)) = activeTask st)"
proof (intro conjI)
  show "tasks (fst (removeTask i st)) = filter (\<lambda>t. id' t \<noteq> i) (tasks st)"
    by (rule tasks_removeTask)
  show "subseq (tasks (fst (removeTask i st))) (tasks st)"
    by (simp add: tasks_removeTask)
  show "\<forall>t \<in> set (tasks (fst (removeTask i st))). id' t \<noteq> i"
    by (simp add: tasks_removeTask)
  show "\<forall>t. id' t \<noteq> i \<longrightarrow>
      count_list (tasks (fst (removeTask i st))) t = count_list (tasks st) t"
    by (simp add: tasks_removeTask count_list_filter)
  show "if map_option id' (activeTask st) = Some i
    then \<not> dialogOpen (fst (removeTask i st)) \<and> activeTask (fst (removeTask i st)) = None
    else dialogOpen (fst (removeTask i st)) = dialogOpen st \<and>
         activeTask (fst (removeTask i st)) = activeTask st"
    by (cases "map_option id' (activeTask st) = Some i")
       (auto simp add: removeTask_def persistTasks_def Let_def)
qed

theorem removeTask_effect_witness:
  "map_option id' (activeTask sample_board) = Some ''b'' \<and>
   tasks (fst (removeTask ''b'' sample_board)) = [task_a, task_c] \<and>
   \<not> dialogOpen (fst (removeTask ''b'' sample_board)) \<and>
   activeTask (fst (removeTask ''b'' sample_board)) = None \<and>
   map_option id' (activeTask sample_board) \<noteq> Some ''c'' \<and>
   tasks (fst (removeTask ''c'' sample_board)) = [task_a, task_b] \<and>
   dialogOpen (fst (removeTask ''c'' sample_board)) \<and>
   activeTask (fst (removeTask ''c'' sample_board)) = Some task_b"
  using removeTask_effect [of "''b''" sample_board] removeTask_effect [of "''c''" sample_board]
  by (simp add: sample_board_def task_a_def task_b_def task_c_def)

text \<open>
  C8. If the title field is empty or holds only white space, addTask does nothing: the
  state, the task list in it, is unchanged and no request is issued. Otherwise the new
  task's title and detail are the trimmed fields, and one request carries the new list.
  Trimming takes a run of white space off each end and leaves a text that neither starts
  nor ends with white space.
\<close>

theorem addTask_blank_is_noop:
  "((\<forall>c \<in> set (newTitle st). isWhiteSpace c) \<longrightarrow> addTask uuid st = (st, [])) \<and>
   (\<not> (\<forall>c \<in> set (newTitle st). isWhiteSpace c) \<longrightarrow>
      (\<exists>t. tasks (fst (addTask uuid st)) = t # tasks st \<and>
           title t = trim (newTitle st) \<and> detail t = trim (newDetail st) \<and>
           snd (addTask uuid st) = [t # tasks st])) \<and>
   (\<forall>s. \<exists>pre post. s = pre @ trim s @ post \<and>
      (\<forall>c \<in> set pre. isWhiteSpace c) \<and> (\<forall>c \<in> set post. isWhiteSpace c) \<and>
      (trim s \<noteq> [] \<longrightarrow> \<not> isWhiteSpace (hd (trim s)) \<and> \<not> isWhiteSpace (last (trim s))))"
proof (intro conjI impI allI)
  assume "\<forall>c \<in> set (newTitle st). isWhiteSpace c"
  then have "trim (newTitle st) = []"
    by (simp add: trim_Nil_iff)
  then show "addTask uuid st = (st, [])"
    by (simp add: addTask_def)
next
  assume "\<not> (\<forall>c \<in> set (newTitle st). isWhiteSpace c)"
  then have "trim (newTitle st) \<noteq> []"
    by (simp add: trim_Nil_iff)
  then show "\<exists>t. tasks (fst (addTask uuid st)) = t # tasks st \<and>
           title t = trim (newTitle st) \<and> detail t = trim (newDetail st) \<and>
           snd (addTask uuid st) = [t # tasks st]"
    by (simp add: addTask_def persistTasks_def Let_def)
next
  fix s
  show "\<exists>pre post. s = pre @ trim s @ post \<and>
      (\<forall>c \<in> set pre. isWhiteSpace c) \<and> (\<forall>c \<in> set post. isWhiteSpace c) \<and>
      (trim s \<noteq> [] \<longrightarrow> \<not> isWhiteSpace (hd (trim s)) \<and> \<not> isWhiteSpace (last (trim s)))"
    by (rule trim_decompose)
qed

theorem addTask_blank_is_noop_witness:
  "newTitle blank_title_board = '' '' \<and> isWhiteSpace (CHR '' '') \<and>
   addTask ''u-1'' blank_title_board = (blank_title_board, []) \<and>
   \<not> (\<forall>c \<in> set (newTitle sample_board). isWhiteSpace c) \<and>
   (\<exists>t. tasks (fst (addTask ''u-1'' sample_board)) = t # tasks sample_board \<and>
        title t = ''New task'' \<and> detail t = ''later'')"
proof -
  have b: "newTitle blank_title_board = '' ''" "isWhiteSpace (CHR '' '')"
    by (simp_all add: blank_title_board_def sample_board_def isWhiteSpace_def)
  have n: "\<not> (\<forall>c \<in> set (newTitle sample_board). isWhiteSpace c)"
    by (simp add: sample_board_def isWhiteSpace_def)
  have t: "trim (newTitle sample_board) = ''New task''" "trim (newDetail sample_board) = ''later''"
    by (simp_all add: sample_board_def trim_def isWhiteSpace_def)
  show ?thesis
    using addTask_blank_is_noop [of blank_title_board "''u-1''"]
      addTask_blank_is_noop [of sample_board "''u-1''"] b n t
    by auto
qed

text \<open>
  C9. For an id that no task of the list has, the list updateTask, moveForward and
  moveBack compute is the list they were given.
\<close>

theorem unknown_id_is_identity:
  assumes "i \<notin> id' ` set (tasks st)"
  shows "tasks (fst (updateTask i p st)) = tasks st \<and>
         tasks (fst (moveForward i st)) = tasks st \<and>
         tasks (fst (moveBack i st)) = tasks st"
proof -
  have ne: "id' t \<noteq> i" if "t \<in> set (tasks st)" for t
    using assms that by auto
  have "map (\<lambda>task. if id' task = i then spread task p else task) (tasks st)
          = map (\<lambda>t. t) (tasks st)"
    by (rule map_cong) (simp_all add: ne)
  moreover have "map (\<lambda>task. if id' task \<noteq> i then task
                  else if status task = Todo then task\<lparr>status := Doing\<rparr>
                  else if status task = Doing then task\<lparr>status := Done\<rparr>
                  else task) (tasks st) = map (\<lambda>t. t) (tasks st)"
    by (rule map_cong) (simp_all add: ne)
  moreover have "map (\<lambda>task. if id' task \<noteq> i then task
                  else if status task = Done then task\<lparr>status := Doing\<rparr>
                  else if status task = Doing then task\<lparr>status := Todo\<rparr>
                  else task) (tasks st) = map (\<lambda>t. t) (tasks st)"
    by (rule map_cong) (simp_all add: ne)
  ultimately show ?thesis
    by (simp add: tasks_updateTask tasks_moveForward tasks_moveBack)
qed

theorem unknown_id_is_identity_witness:
  "''zz'' \<notin> id' ` set (tasks sample_board) \<and>
   tasks (fst (updateTask ''zz'' \<lparr>patch_title = Some ''X'', patch_detail = Some ''Y''\<rparr>
     sample_board))
     = [task_a, task_b, task_c] \<and>
   tasks (fst (moveForward ''zz'' sample_board)) = [task_a, task_b, task_c] \<and>
   tasks (fst (moveBack ''zz'' sample_board)) = [task_a, task_b, task_c]"
proof -
  have h: "''zz'' \<notin> id' ` set (tasks sample_board)"
    by (simp add: sample_board_def task_a_def task_b_def task_c_def)
  show ?thesis
    using unknown_id_is_identity [OF h] h by (simp add: sample_board_def)
qed

end
